theory Spec2Isabelle
  imports Complex_Main "HOL-Library.Word" "HOL-Library.Multiset"
begin

unbundle bit_operations_syntax

section \<open>Data model of \<open>astar_planner.h\<close>\<close>

text \<open>
  \<open>octomap::OcTreeKey\<close> comes from the octomap library: an array \<open>k[3]\<close> of
  \<open>key_type\<close>, which octomap declares as \<open>uint16_t\<close>. The three components are the
  fields \<open>k0\<close>, \<open>k1\<close>, \<open>k2\<close>. In an expression such as \<open>k[0] + k[1] + k[2]\<close> C++
  promotes each operand to \<open>int\<close>, so the sum is the sum of the unsigned values and cannot
  overflow; \<open>keysum\<close> below is that sum.
\<close>

type_synonym key_type = "16 word"

record OcTreeKey =
  k0 :: key_type
  k1 :: key_type
  k2 :: key_type

text \<open>\<open>octomap::point3d\<close>: three coordinates. Only stored and copied here.\<close>

type_synonym point3d = "real \<times> real \<times> real"

text \<open>
  \<open>struct GridParams\<close> (lines 22-33): the number of cells and the extents of the grid on
  each axis, all \<open>double\<close>s.
\<close>

record GridParams =
  width :: real
  height :: real
  depth :: real
  min_x :: real
  min_y :: real
  min_z :: real
  max_x :: real
  max_y :: real
  max_z :: real

text \<open>
  \<open>struct Node\<close> (lines 35-61). The cost fields are \<open>double\<close>s that this header only
  compares; they are modelled by the reals they denote (no NaN). The comments of the
  source are kept: \<open>g_cost\<close> is the overall node cost, \<open>f_cost\<close> the cost from start.
\<close>

record Node =
  key :: OcTreeKey
  pose :: point3d
  parent_key :: OcTreeKey
  g_cost :: real
  h_cost :: real
  f_cost :: real
  unnorm_cost :: real
  obs_cost :: real
  path_cost :: real
  n_nodes :: int

definition keysum :: "OcTreeKey \<Rightarrow> int" where
  "keysum k = uint (k0 k) + uint (k1 k) + uint (k2 k)"

text \<open>The member operators of \<open>Node\<close> (lines 48-60); \<open>a\<close> is \<open>*this\<close>.\<close>

definition Node_op_eq :: "Node \<Rightarrow> Node \<Rightarrow> bool" where
  "Node_op_eq a b =
     (k0 (key a) = k0 (key b) \<and> k1 (key a) = k1 (key b) \<and> k2 (key a) = k2 (key b))"

definition Node_op_lt :: "Node \<Rightarrow> Node \<Rightarrow> bool" where
  "Node_op_lt a b =
     (keysum (key a) < keysum (key b) \<and>
      (k0 (key a) \<noteq> k0 (key b) \<or> k1 (key a) \<noteq> k1 (key b) \<or> k2 (key a) \<noteq> k2 (key b)))"

definition Node_op_gt :: "Node \<Rightarrow> Node \<Rightarrow> bool" where
  "Node_op_gt a b =
     (keysum (key a) > keysum (key b) \<and>
      (k0 (key a) \<noteq> k0 (key b) \<or> k1 (key a) \<noteq> k1 (key b) \<or> k2 (key a) \<noteq> k2 (key b)))"

text \<open>\<open>struct NodeCompare\<close> (lines 63-68), the comparison of the priority queue.\<close>

definition NodeCompare :: "Node \<Rightarrow> Node \<Rightarrow> bool" where
  "NodeCompare lhs rhs = (g_cost lhs > g_cost rhs)"

text \<open>The free operators \<open>operator<\<close> and \<open>operator==\<close> on \<open>const Node&\<close> (lines 70-77).\<close>

definition op_lt :: "Node \<Rightarrow> Node \<Rightarrow> bool" where
  "op_lt lhs rhs =
     (keysum (key lhs) < keysum (key rhs) \<and>
      (k0 (key lhs) \<noteq> k0 (key rhs) \<or> k1 (key lhs) \<noteq> k1 (key rhs) \<or>
       k2 (key lhs) \<noteq> k2 (key rhs)))"

definition op_eq :: "Node \<Rightarrow> Node \<Rightarrow> bool" where
  "op_eq lhs rhs =
     (k0 (key lhs) = k0 (key rhs) \<and> k1 (key lhs) = k1 (key rhs) \<and> k2 (key lhs) = k2 (key rhs))"

text \<open>
  \<open>struct NodeHasher\<close> (lines 79-85). \<open>std::hash<int>\<close> is the standard library's and
  implementation defined, so it is the parameter \<open>hash_int\<close>; its result type
  \<open>std::size_t\<close> is a word of the platform's width \<open>'w\<close>. Each key component reaches it
  converted to \<open>int\<close>. The source's expression is
  \<open>((h(k[0]) ^ (h(k[1]) << 1)) >> 1) ^ (h(k[2]) << 1)\<close>.
\<close>

definition NodeHasher :: "(int \<Rightarrow> 'w::len word) \<Rightarrow> Node \<Rightarrow> 'w word" where
  "NodeHasher hash_int n =
     drop_bit 1 (hash_int (uint (k0 (key n))) XOR push_bit 1 (hash_int (uint (k1 (key n)))))
       XOR push_bit 1 (hash_int (uint (k2 (key n))))"

text \<open>Nodes and keys used as concrete inputs.\<close>

definition mk_key :: "key_type \<Rightarrow> key_type \<Rightarrow> key_type \<Rightarrow> OcTreeKey" where
  "mk_key a b c = \<lparr>k0 = a, k1 = b, k2 = c\<rparr>"

definition mk_node :: "OcTreeKey \<Rightarrow> real \<Rightarrow> real \<Rightarrow> Node" where
  "mk_node k g f =
     \<lparr>key = k, pose = (0, 0, 0), parent_key = k, g_cost = g, h_cost = 0, f_cost = f,
      unnorm_cost = 0, obs_cost = 0, path_cost = 0, n_nodes = 0\<rparr>"

section \<open>The frontier: \<open>AstarPriorityQueue\<close>\<close>

text \<open>
  \<open>class AstarPriorityQueue\<close> (lines 87-121) derives from
  \<open>std::priority_queue<Node, std::vector<Node>, NodeCompare>\<close>. Its state is the
  protected container \<open>c\<close>, a vector of nodes, here a list; \<open>comp\<close> is \<open>NodeCompare\<close>.
  Iterators into \<open>c\<close> are indices, \<open>c.end()\<close> is \<open>length c\<close>.

  The heap algorithms are the standard library's. \<open>is_heap\<close> is the heap property of
  \<open>std::is_heap\<close>: no element compares greater than its parent at index \<open>(i - 1) div 2\<close>.
  \<open>std::make_heap\<close> is a parameter of \<open>conditional_remove\<close>; the standard fixes only its
  postcondition \<open>make_heap_post\<close> (a permutation of the range that is a heap), and
  \<open>sort_make_heap\<close> is one function that meets it, used at concrete inputs.
\<close>

definition is_heap :: "('a \<Rightarrow> 'a \<Rightarrow> bool) \<Rightarrow> 'a list \<Rightarrow> bool" where
  "is_heap cmp xs = list_all (\<lambda>i. \<not> cmp (xs ! ((i - 1) div 2)) (xs ! i)) [1..<length xs]"

definition make_heap_post :: "(Node list \<Rightarrow> Node list) \<Rightarrow> bool" where
  "make_heap_post mh = (\<forall>xs. mset (mh xs) = mset xs \<and> is_heap NodeCompare (mh xs))"

definition sort_make_heap :: "Node list \<Rightarrow> Node list" where
  "sort_make_heap xs = sort_key g_cost xs"

text \<open>
  \<open>struct node_equal\<close> (lines 112-120): the predicate given to \<open>std::find_if\<close>,
  \<open>n_a\<close> being the node it was built from.
\<close>

definition node_equal :: "Node \<Rightarrow> Node \<Rightarrow> bool" where
  "node_equal n_a n_b =
     (k0 (key n_b) = k0 (key n_a) \<and> k1 (key n_b) = k1 (key n_a) \<and> k2 (key n_b) = k2 (key n_a))"

text \<open>\<open>std::find_if\<close>: the index of the first element satisfying \<open>P\<close>, or the end.\<close>

fun find_if :: "('a \<Rightarrow> bool) \<Rightarrow> 'a list \<Rightarrow> nat" where
  "find_if P [] = 0"
| "find_if P (x # xs) = (if P x then 0 else Suc (find_if P xs))"

text \<open>\<open>std::vector::erase\<close> of the element at a valid index.\<close>

definition erase :: "'a list \<Rightarrow> nat \<Rightarrow> 'a list" where
  "erase c it = take it c @ drop (Suc it) c"

text \<open>
  \<open>conditional_remove\<close> (lines 89-102). The result is the returned \<open>int\<close> together with
  the container after the call.
\<close>

definition conditional_remove ::
  "(Node list \<Rightarrow> Node list) \<Rightarrow> Node list \<Rightarrow> Node \<Rightarrow> real \<Rightarrow> int \<times> Node list" where
  "conditional_remove make_heap c val cost_value =
     (let it = find_if (node_equal val) c in
      if it \<noteq> length c then
        if f_cost (c ! it) > cost_value then (1, make_heap (erase c it))
        else (- 1, c)
      else (0, c))"

text \<open>
  The inherited members of \<open>std::priority_queue\<close>. \<open>top\<close> returns \<open>c.front()\<close> and is
  undefined on an empty queue (\<open>None\<close>); \<open>push\<close> appends the node and calls
  \<open>std::push_heap\<close>; \<open>pop\<close> calls \<open>std::pop_heap\<close> and removes the last element. The two
  algorithms are parameters. The standard's postcondition of \<open>std::pop_heap\<close> on a
  non-empty heap is \<open>pop_heap_post\<close>: the first element is moved to the end and the
  elements before it are the others, as a heap; \<open>sort_pop_heap\<close> is one function that
  meets it.
\<close>

definition top_pq :: "Node list \<Rightarrow> Node option" where
  "top_pq c = (case c of [] \<Rightarrow> None | x # _ \<Rightarrow> Some x)"

definition push :: "(Node list \<Rightarrow> Node list) \<Rightarrow> Node list \<Rightarrow> Node \<Rightarrow> Node list" where
  "push push_heap c x = push_heap (c @ [x])"

definition pop :: "(Node list \<Rightarrow> Node list) \<Rightarrow> Node list \<Rightarrow> Node list" where
  "pop pop_heap c = butlast (pop_heap c)"

definition pop_heap_post :: "(Node list \<Rightarrow> Node list) \<Rightarrow> bool" where
  "pop_heap_post ph =
     (\<forall>x xs. is_heap NodeCompare (x # xs) \<longrightarrow>
        (\<exists>ys. ph (x # xs) = ys @ [x] \<and> mset ys = mset xs \<and> is_heap NodeCompare ys))"

definition sort_pop_heap :: "Node list \<Rightarrow> Node list" where
  "sort_pop_heap c = (case c of [] \<Rightarrow> [] | x # xs \<Rightarrow> sort_key g_cost xs @ [x])"

text \<open>
  The standard's postcondition of \<open>std::push_heap\<close>, on a range whose last element was
  appended to a heap, is \<open>push_heap_post\<close>. The states of the frontier are those reached
  from the empty queue by \<open>push\<close>, \<open>pop\<close> and \<open>conditional_remove\<close>.
\<close>

definition push_heap_post :: "(Node list \<Rightarrow> Node list) \<Rightarrow> bool" where
  "push_heap_post ph =
     (\<forall>xs x. is_heap NodeCompare xs \<longrightarrow>
        mset (ph (xs @ [x])) = add_mset x (mset xs) \<and> is_heap NodeCompare (ph (xs @ [x])))"

inductive frontier_state ::
  "(Node list \<Rightarrow> Node list) \<Rightarrow> (Node list \<Rightarrow> Node list) \<Rightarrow> (Node list \<Rightarrow> Node list)
     \<Rightarrow> Node list \<Rightarrow> bool"
  for make_heap push_heap pop_heap where
  frontier_empty: "frontier_state make_heap push_heap pop_heap []"
| frontier_push:
    "frontier_state make_heap push_heap pop_heap c \<Longrightarrow>
     frontier_state make_heap push_heap pop_heap (push push_heap c x)"
| frontier_pop:
    "frontier_state make_heap push_heap pop_heap c \<Longrightarrow> c \<noteq> [] \<Longrightarrow>
     frontier_state make_heap push_heap pop_heap (pop pop_heap c)"
| frontier_conditional_remove:
    "frontier_state make_heap push_heap pop_heap c \<Longrightarrow>
     frontier_state make_heap push_heap pop_heap (snd (conditional_remove make_heap c v x))"

text \<open>\<open>getAllNodes\<close> (lines 104-110): the poses of the contained nodes, in container order.\<close>

fun getAllNodes :: "Node list \<Rightarrow> point3d list" where
  "getAllNodes [] = []"
| "getAllNodes (p # c) = pose p # getAllNodes c"

section \<open>The search, modelled from the specification\<close>

text \<open>
  The header declares \<open>AstarPlanner::getNodePath\<close> (lines 146-148) and the helpers it
  calls without bodies. This section models the expansion loop of section 4.1 of the
  specification on the data of the header: the nodes are the header's \<open>Node\<close>, the open
  list is its \<open>AstarPriorityQueue\<close> with \<open>push\<close>, \<open>top\<close>, \<open>pop\<close> and
  \<open>conditional_remove\<close> as embedded above, and the closed list is the
  \<open>std::unordered_set<Node, NodeHasher>\<close> of line 229, whose elements are identified by
  \<open>operator==\<close>.
\<close>




















section \<open>Lemmas on the container\<close>

lemma is_heap_iff:
  "is_heap cmp xs \<longleftrightarrow> (\<forall>i. 0 < i \<and> i < length xs \<longrightarrow> \<not> cmp (xs ! ((i - 1) div 2)) (xs ! i))"
  by (auto simp: is_heap_def list_all_iff)

lemma node_equal_key: "node_equal v n \<longleftrightarrow> key n = key v"
  by (cases "key n"; cases "key v") (auto simp: node_equal_def)

lemma find_if_le: "find_if P xs \<le> length xs"
  by (induction xs) auto

lemma find_if_end: "find_if P xs = length xs \<longleftrightarrow> (\<forall>x\<in>set xs. \<not> P x)"
  by (induction xs) auto

lemma find_if_find:
  "List.find P xs = (if find_if P xs = length xs then None else Some (xs ! find_if P xs))"
  by (induction xs) auto

lemma mset_erase: "i < length c \<Longrightarrow> mset (erase c i) = mset c - {#c ! i#}"
proof -
  assume i: "i < length c"
  then have "c = take i c @ c ! i # drop (Suc i) c"
    by (rule id_take_nth_drop)
  then have "mset c = mset (take i c) + add_mset (c ! i) (mset (drop (Suc i) c))"
    by (metis mset.simps(2) mset_append)
  then show ?thesis
    by (simp add: erase_def)
qed

lemma heap_front_min:
  assumes h: "is_heap NodeCompare c" and i: "i < length c"
  shows "g_cost (c ! 0) \<le> g_cost (c ! i)"
  using i
proof (induction i rule: less_induct)
  case (less i)
  show ?case
  proof (cases "i = 0")
    case True
    then show ?thesis by simp
  next
    case False
    let ?p = "(i - 1) div 2"
    from False have p: "?p < i" by arith
    with less.prems have "?p < length c" by simp
    with less.IH p have "g_cost (c ! 0) \<le> g_cost (c ! ?p)" by blast
    moreover from h False less.prems have "\<not> NodeCompare (c ! ?p) (c ! i)"
      by (simp add: is_heap_iff)
    ultimately show ?thesis by (simp add: NodeCompare_def)
  qed
qed

lemma sorted_is_heap:
  assumes "sorted (map g_cost xs)"
  shows "is_heap NodeCompare xs"
  unfolding is_heap_iff NodeCompare_def
proof (intro allI impI)
  fix i assume i: "0 < i \<and> i < length xs"
  let ?p = "(i - 1) div 2"
  from i have p: "?p \<le> i" "?p < length xs" by arith+
  with assms i have "map g_cost xs ! ?p \<le> map g_cost xs ! i"
    by (intro sorted_nth_mono) auto
  with i p have "g_cost (xs ! ?p) \<le> g_cost (xs ! i)"
    by simp
  then show "\<not> g_cost (xs ! ?p) > g_cost (xs ! i)"
    by simp
qed

lemma sort_make_heap_post: "make_heap_post sort_make_heap"
  by (simp add: make_heap_post_def sort_make_heap_def sorted_is_heap)

lemma sort_pop_heap_post: "pop_heap_post sort_pop_heap"
  by (simp add: pop_heap_post_def sort_pop_heap_def sorted_is_heap)

lemma is_heap_Nil: "is_heap cmp []"
  by (simp add: is_heap_def)

lemma frontier_state_is_heap:
  assumes mh: "make_heap_post mh" and ph: "push_heap_post ph" and qh: "pop_heap_post qh"
    and st: "frontier_state mh ph qh c"
  shows "is_heap NodeCompare c"
  using st
proof (induction rule: frontier_state.induct)
  case frontier_empty
  show ?case by (rule is_heap_Nil)
next
  case (frontier_push c x)
  with ph show ?case
    by (simp add: push_heap_post_def push_def)
next
  case (frontier_pop c)
  then obtain x xs where c: "c = x # xs"
    by (cases c) auto
  with qh frontier_pop.IH obtain ys where "qh c = ys @ [x]" "is_heap NodeCompare ys"
    unfolding pop_heap_post_def by blast
  then show ?case
    by (simp add: pop_def)
next
  case (frontier_conditional_remove c v x)
  show ?case
  proof (cases "fst (conditional_remove mh c v x) = 1")
    case True
    then have "snd (conditional_remove mh c v x) = mh (erase c (find_if (node_equal v) c))"
      by (simp add: conditional_remove_def Let_def split: if_splits)
    with mh show ?thesis
      by (simp add: make_heap_post_def)
  next
    case False
    then have "snd (conditional_remove mh c v x) = c"
      by (simp add: conditional_remove_def Let_def split: if_splits)
    with frontier_conditional_remove.IH show ?thesis
      by simp
  qed
qed

lemma sort_push_heap_post: "push_heap_post sort_make_heap"
  by (simp add: push_heap_post_def sort_make_heap_def sorted_is_heap)

lemma find_if_holds: "find_if P xs < length xs \<Longrightarrow> P (xs ! find_if P xs)"
  by (induction xs) (auto split: if_splits)

lemma erase_distinct_key:
  assumes d: "distinct (map key c)" and i: "i < length c" and n: "n \<in> set (erase c i)"
  shows "key n \<noteq> key (c ! i)"
proof -
  have "c = take i c @ c ! i # drop (Suc i) c"
    using i by (rule id_take_nth_drop)
  then have "map key c = map key (take i c) @ key (c ! i) # map key (drop (Suc i) c)"
    by (metis list.simps(9) map_append)
  with d have "distinct (map key (take i c) @ key (c ! i) # map key (drop (Suc i) c))"
    by simp
  then have "key (c ! i) \<notin> set (map key (take i c))"
    and "key (c ! i) \<notin> set (map key (drop (Suc i) c))"
    by auto
  moreover from n have "n \<in> set (take i c) \<or> n \<in> set (drop (Suc i) c)"
    by (simp add: erase_def)
  ultimately show ?thesis
    by (metis image_eqI set_map)
qed

lemma conditional_remove_cases:
  "conditional_remove mh c v x =
     (case List.find (\<lambda>n. key n = key v) c of
        None \<Rightarrow> (0, c)
      | Some n \<Rightarrow>
          if f_cost n > x then (1, mh (erase c (find_if (node_equal v) c))) else (- 1, c))"
proof -
  have pred: "node_equal v = (\<lambda>n. key n = key v)"
    by (rule ext) (simp add: node_equal_key)
  show ?thesis
    by (simp add: conditional_remove_def Let_def find_if_find [of "\<lambda>n. key n = key v" c] pred)
qed

lemma find_if_map_key:
  assumes "\<And>n. key (f n) = key n"
  shows "find_if (node_equal v) (map f c) = find_if (node_equal v) c"
  using assms by (induction c) (simp_all add: node_equal_key)

lemma conditional_remove_code_g_cost:
  "fst (conditional_remove mh (map (\<lambda>n. n\<lparr>g_cost := G n\<rparr>) c) v x)
     = fst (conditional_remove mh c v x)"
proof -
  let ?f = "\<lambda>n. n\<lparr>g_cost := G n\<rparr>"
  have i: "find_if (node_equal v) (map ?f c) = find_if (node_equal v) c"
    by (rule find_if_map_key) simp
  have "find_if (node_equal v) c \<le> length c"
    by (rule find_if_le)
  then show ?thesis
    by (cases "find_if (node_equal v) c = length c")
       (simp_all add: conditional_remove_def Let_def i)
qed

section \<open>Lemmas on the search\<close>




section \<open>Node identity and ordering\<close>

lemma op_eq_key: "op_eq a b \<longleftrightarrow> key a = key b"
  by (cases "key a"; cases "key b") (auto simp: op_eq_def)

text \<open>
  C9. Node identity is the key alone: \<open>a == b\<close> (the free operator and the member
  operator alike) holds exactly when the three key components are pairwise equal, whatever
  the cost fields \<open>g_cost\<close>, \<open>h_cost\<close>, \<open>f_cost\<close>, \<open>obs_cost\<close> and the depth \<open>n_nodes\<close> are;
  the hash of \<open>NodeHasher\<close> is unchanged by these fields, and equal nodes have equal hashes.
\<close>

theorem node_identity_is_key:
  fixes a b :: Node and hash_int :: "int \<Rightarrow> 'w::len word"
  shows "(op_eq a b \<longleftrightarrow>
            k0 (key a) = k0 (key b) \<and> k1 (key a) = k1 (key b) \<and> k2 (key a) = k2 (key b))
       \<and> Node_op_eq a b = op_eq a b
       \<and> op_eq (a\<lparr>g_cost := g, h_cost := h, f_cost := f, obs_cost := ob, n_nodes := d\<rparr>)
                (b\<lparr>g_cost := g', h_cost := h', f_cost := f', obs_cost := ob', n_nodes := d'\<rparr>)
           = op_eq a b
       \<and> NodeHasher hash_int
            (a\<lparr>g_cost := g, h_cost := h, f_cost := f, obs_cost := ob, n_nodes := d\<rparr>)
           = NodeHasher hash_int a
       \<and> (op_eq a b \<longrightarrow> NodeHasher hash_int a = NodeHasher hash_int b)"
  by (simp add: op_eq_def Node_op_eq_def NodeHasher_def)

theorem node_identity_is_key_witness:
  "op_eq (mk_node (mk_key 1 2 3) 10 4) (mk_node (mk_key 1 2 3) 7 9)
   \<and> NodeHasher (\<lambda>i. (word_of_int i :: 64 word)) (mk_node (mk_key 1 2 3) 10 4)
       = NodeHasher (\<lambda>i. word_of_int i) (mk_node (mk_key 1 2 3) 7 9)
   \<and> \<not> op_eq (mk_node (mk_key 1 2 3) 10 4) (mk_node (mk_key 1 2 4) 10 4)"
  using node_identity_is_key [of "mk_node (mk_key 1 2 3) 10 4" "mk_node (mk_key 1 2 3) 7 9"
      0 0 0 0 0 0 0 0 0 0 "\<lambda>i. (word_of_int i :: 64 word)"]
    node_identity_is_key [of "mk_node (mk_key 1 2 3) 10 4" "mk_node (mk_key 1 2 4) 10 4"
      0 0 0 0 0 0 0 0 0 0 "\<lambda>i. (word_of_int i :: 64 word)"]
  by (simp add: mk_node_def mk_key_def)

text \<open>
  C10. \<open>operator<\<close> on nodes (the free operator and the member operator alike) holds
  exactly when the sum of the three key components of the left node is smaller and the
  keys are not identical; the member \<open>operator>\<close> is its converse; no cost field enters
  it. It is irreflexive, and there are two nodes with distinct keys and equal key sums
  for which none of \<open>a < b\<close>, \<open>b < a\<close>, \<open>a == b\<close> holds: it is not a total strict order
  consistent with key equality.
\<close>

theorem op_lt_keysum_not_total:
  "(\<forall>a b. op_lt a b \<longleftrightarrow> keysum (key a) < keysum (key b) \<and> key a \<noteq> key b)
   \<and> (\<forall>a b. Node_op_lt a b = op_lt a b)
   \<and> (\<forall>a b. Node_op_gt a b = op_lt b a)
   \<and> (\<forall>a b g h f ob d g' h' f' ob' d'.
         op_lt (a\<lparr>g_cost := g, h_cost := h, f_cost := f, obs_cost := ob, n_nodes := d\<rparr>)
               (b\<lparr>g_cost := g', h_cost := h', f_cost := f', obs_cost := ob', n_nodes := d'\<rparr>)
           = op_lt a b)
   \<and> (\<forall>a. \<not> op_lt a a)
   \<and> (\<exists>a b. key a \<noteq> key b \<and> keysum (key a) = keysum (key b)
          \<and> \<not> op_lt a b \<and> \<not> op_lt b a \<and> \<not> op_eq a b)"
proof -
  have char: "op_lt a b \<longleftrightarrow> keysum (key a) < keysum (key b) \<and> key a \<noteq> key b" for a b
    by (cases "key a"; cases "key b") (auto simp: op_lt_def)
  have member: "Node_op_lt a b = op_lt a b" for a b
    by (simp add: Node_op_lt_def op_lt_def)
  have greater: "Node_op_gt a b = op_lt b a" for a b
    by (auto simp: Node_op_gt_def op_lt_def)
  have costs: "op_lt (a\<lparr>g_cost := g, h_cost := h, f_cost := f, obs_cost := ob, n_nodes := d\<rparr>)
               (b\<lparr>g_cost := g', h_cost := h', f_cost := f', obs_cost := ob', n_nodes := d'\<rparr>)
           = op_lt a b" for a b g h f ob d g' h' f' ob' d'
    by (simp add: op_lt_def)
  have irrefl: "\<not> op_lt a a" for a
    by (simp add: op_lt_def)
  let ?a = "mk_node (mk_key 1 0 0) 0 0" and ?b = "mk_node (mk_key 0 1 0) 0 0"
  have "key ?a \<noteq> key ?b \<and> keysum (key ?a) = keysum (key ?b)
          \<and> \<not> op_lt ?a ?b \<and> \<not> op_lt ?b ?a \<and> \<not> op_eq ?a ?b"
    by (simp add: mk_node_def mk_key_def keysum_def op_lt_def op_eq_def)
  then have incomparable: "\<exists>a b. key a \<noteq> key b \<and> keysum (key a) = keysum (key b)
          \<and> \<not> op_lt a b \<and> \<not> op_lt b a \<and> \<not> op_eq a b"
    by blast
  from char member greater costs irrefl incomparable show ?thesis
    by blast
qed

theorem op_lt_keysum_not_total_witness:
  "op_lt (mk_node (mk_key 1 2 3) 50 50) (mk_node (mk_key 4 2 3) 1 1)
   \<and> \<not> op_lt (mk_node (mk_key 4 2 3) 1 1) (mk_node (mk_key 1 2 3) 50 50)
   \<and> \<not> op_lt (mk_node (mk_key 1 0 0) 0 0) (mk_node (mk_key 0 1 0) 0 0)
   \<and> \<not> op_lt (mk_node (mk_key 0 1 0) 0 0) (mk_node (mk_key 1 0 0) 0 0)"
  using op_lt_keysum_not_total
  by (simp add: mk_node_def mk_key_def keysum_def)

section \<open>Conditional remove\<close>

text \<open>
  C1 (as amended). For every state \<open>c\<close> of the frontier, every key (that of \<open>v\<close>) and
  every candidate cost \<open>x\<close>, with \<open>e\<close> the stored entry for the key, that is the first node
  of the container with this key (the one \<open>std::find_if\<close> returns; the only one when keys
  are unique): conditional remove returns 1 exactly when the entry is present and its
  field \<open>f_cost\<close> (not the \<open>g_cost\<close> that keys the queue) is strictly greater than \<open>x\<close>,
  and then the container holds the same nodes without this entry and is a heap again; it
  returns -1 exactly when the entry is present with \<open>f_cost\<close> at most \<open>x\<close>, and 0 exactly
  when no node has the key; in both cases the container is unchanged. When keys are
  unique, no node with the key is left after a removal. The return code holds for any
  \<open>std::make_heap\<close>; what the container holds after a removal rests on its postcondition.
\<close>

theorem conditional_remove_codes:
  fixes c :: "Node list" and v :: Node and x :: real
  shows "let r = conditional_remove mh c v x; e = List.find (\<lambda>n. key n = key v) c in
     (e = None \<longleftrightarrow> \<not> (\<exists>n\<in>set c. key n = key v))
   \<and> (fst r = 1 \<longleftrightarrow> (\<exists>n. e = Some n \<and> f_cost n > x))
   \<and> (fst r = - 1 \<longleftrightarrow> (\<exists>n. e = Some n \<and> f_cost n \<le> x))
   \<and> (fst r = 0 \<longleftrightarrow> e = None)
   \<and> (fst r \<noteq> 1 \<longrightarrow> snd r = c)
   \<and> (make_heap_post mh \<longrightarrow>
        (\<forall>n. e = Some n \<and> f_cost n > x \<longrightarrow>
           mset (snd r) = mset c - {#n#} \<and> is_heap NodeCompare (snd r))
      \<and> (distinct (map key c) \<and> fst r = 1 \<longrightarrow> (\<forall>n\<in>set (snd r). key n \<noteq> key v)))"
proof -
  define it where "it = find_if (node_equal v) c"
  have pred: "node_equal v = (\<lambda>n. key n = key v)"
    by (rule ext) (simp add: node_equal_key)
  have e: "List.find (\<lambda>n. key n = key v) c = (if it = length c then None else Some (c ! it))"
    unfolding it_def pred by (rule find_if_find)
  have none: "it = length c \<longleftrightarrow> \<not> (\<exists>n\<in>set c. key n = key v)"
    unfolding it_def pred by (simp add: find_if_end)
  have le: "it \<le> length c"
    unfolding it_def by (rule find_if_le)
  have r: "conditional_remove mh c v x =
      (if it \<noteq> length c then
         if f_cost (c ! it) > x then (1, mh (erase c it)) else (- 1, c)
       else (0, c))"
    by (simp add: conditional_remove_def it_def)
  show ?thesis
  proof (cases "it = length c")
    case True
    with r e none show ?thesis by (simp add: Let_def)
  next
    case False
    with le have lt: "it < length c" by simp
    show ?thesis
    proof (cases "f_cost (c ! it) > x")
      case keep: False
      with False r e none show ?thesis by (simp add: Let_def)
    next
      case True
      have ms: "mset (mh (erase c it)) = mset c - {#c ! it#}"
        and hp: "is_heap NodeCompare (mh (erase c it))" if "make_heap_post mh"
        using that lt by (simp_all add: make_heap_post_def mset_erase)
      have kv: "key (c ! it) = key v"
        using find_if_holds [of "node_equal v" c] lt by (simp add: it_def node_equal_key)
      have gone: "\<forall>n\<in>set (mh (erase c it)). key n \<noteq> key v"
        if mh: "make_heap_post mh" and d: "distinct (map key c)"
      proof
        fix n assume "n \<in> set (mh (erase c it))"
        then have "n \<in> set (erase c it)"
          using mh by (metis make_heap_post_def set_mset_mset)
        with d lt kv show "key n \<noteq> key v"
          using erase_distinct_key [of c it n] by simp
      qed
      from True False r e none ms hp gone show ?thesis
        by (simp add: Let_def)
    qed
  qed
qed

text \<open>
  The amended scenario, on a node whose two costs differ: after inserting \<open>K\<close> with
  \<open>g_cost = 3\<close> and \<open>f_cost = 10\<close> into the empty queue, candidate 5 removes it, candidate
  20 keeps it, and a key that is absent is reported absent.
\<close>

theorem conditional_remove_codes_witness:
  "conditional_remove sort_make_heap (push sort_make_heap [] (mk_node (mk_key 1 2 3) 3 10))
      (mk_node (mk_key 1 2 3) 0 0) 5 = (1, [])
   \<and> conditional_remove sort_make_heap (push sort_make_heap [] (mk_node (mk_key 1 2 3) 3 10))
      (mk_node (mk_key 1 2 3) 0 0) 20 = (- 1, [mk_node (mk_key 1 2 3) 3 10])
   \<and> conditional_remove sort_make_heap [] (mk_node (mk_key 1 2 3) 0 0) 5 = (0, [])
   \<and> conditional_remove sort_make_heap (push sort_make_heap [] (mk_node (mk_key 1 2 3) 3 10))
      (mk_node (mk_key 4 5 6) 0 0) 5 = (0, [mk_node (mk_key 1 2 3) 3 10])"
  using conditional_remove_codes
      [of sort_make_heap "[mk_node (mk_key 1 2 3) 3 10]" "mk_node (mk_key 1 2 3) 0 0" 5]
    conditional_remove_codes
      [of sort_make_heap "[mk_node (mk_key 1 2 3) 3 10]" "mk_node (mk_key 1 2 3) 0 0" 20]
    conditional_remove_codes [of sort_make_heap "[]" "mk_node (mk_key 1 2 3) 0 0" 5]
    sort_make_heap_post
  by (simp add: conditional_remove_def node_equal_def mk_node_def mk_key_def
      erase_def sort_make_heap_def push_def)

text \<open>
  The claim as stated fails on its own scenario. The frontier is keyed by \<open>g_cost\<close>, so
  inserting \<open>K\<close> with cost 10 gives the node \<open>g_cost = 10\<close> and leaves \<open>f_cost\<close> at the
  default 0 of \<open>struct Node\<close>. Conditional remove with candidate 5 then answers -1 and keeps
  the node, where the claim says that it is removed with answer 1.
\<close>

theorem conditional_remove_scenario_counterexample:
  "push sort_make_heap [] (mk_node (mk_key 1 2 3) 10 0) = [mk_node (mk_key 1 2 3) 10 0]
   \<and> g_cost (mk_node (mk_key 1 2 3) 10 0) = 10
   \<and> f_cost (mk_node (mk_key 1 2 3) 10 0) = 0
   \<and> fst (conditional_remove sort_make_heap
          (push sort_make_heap [] (mk_node (mk_key 1 2 3) 10 0)) (mk_node (mk_key 1 2 3) 0 0) 5)
       \<noteq> 1
   \<and> conditional_remove sort_make_heap
          (push sort_make_heap [] (mk_node (mk_key 1 2 3) 10 0)) (mk_node (mk_key 1 2 3) 0 0) 5
       = (- 1, [mk_node (mk_key 1 2 3) 10 0])"
  by (simp add: conditional_remove_def node_equal_def mk_node_def mk_key_def
      erase_def sort_make_heap_def push_def)

section \<open>The order of the frontier\<close>

text \<open>
  C2 (as amended). For every non-empty frontier, a heap under \<open>NodeCompare\<close> (as every
  state of the frontier is, by \<open>frontier_state_is_heap\<close>), the node that \<open>top\<close> returns has
  the least \<open>g_cost\<close> of all contained nodes, and it is the node that \<open>pop\<close> removes,
  leaving a heap; the comparison depends on the \<open>g_cost\<close> of the two nodes only.
  Conditional remove does not consult that cost: its return code is unchanged by any
  change of the \<open>g_cost\<close> fields, and it is 1 exactly when the stored entry is present
  with \<open>f_cost\<close> strictly greater than the candidate.
\<close>

theorem frontier_pops_min_g_cost:
  assumes "is_heap NodeCompare c" and "c \<noteq> []"
  shows "(\<exists>n. top_pq c = Some n \<and> n \<in> set c \<and> (\<forall>m\<in>set c. g_cost n \<le> g_cost m)
            \<and> (\<forall>ph. pop_heap_post ph \<longrightarrow>
                  mset (pop ph c) = mset c - {#n#} \<and> is_heap NodeCompare (pop ph c)))
    \<and> (\<forall>a b a' b'. g_cost a = g_cost a' \<and> g_cost b = g_cost b'
          \<longrightarrow> NodeCompare a b = NodeCompare a' b')
    \<and> (\<forall>mh v x G. fst (conditional_remove mh (map (\<lambda>n. n\<lparr>g_cost := G n\<rparr>) c) v x)
          = fst (conditional_remove mh c v x))
    \<and> (\<forall>mh v x. fst (conditional_remove mh c v x) = 1
          \<longleftrightarrow> (\<exists>n. List.find (\<lambda>n. key n = key v) c = Some n \<and> f_cost n > x))"
proof -
  from assms(2) obtain n ns where c: "c = n # ns"
    by (cases c) auto
  have least: "g_cost n \<le> g_cost m" if "m \<in> set c" for m
  proof -
    from that obtain i where "i < length c" "c ! i = m"
      by (auto simp: in_set_conv_nth)
    with heap_front_min [OF assms(1), of i] c show ?thesis
      by simp
  qed
  have popped: "mset (pop ph c) = mset c - {#n#} \<and> is_heap NodeCompare (pop ph c)"
    if "pop_heap_post ph" for ph
  proof -
    from that assms(1) c obtain ys
      where "ph c = ys @ [n]" "mset ys = mset ns" "is_heap NodeCompare ys"
      unfolding pop_heap_post_def by blast
    with c show ?thesis
      by (simp add: pop_def)
  qed
  from c least popped
  have top: "\<exists>n. top_pq c = Some n \<and> n \<in> set c \<and> (\<forall>m\<in>set c. g_cost n \<le> g_cost m)
      \<and> (\<forall>ph. pop_heap_post ph \<longrightarrow>
            mset (pop ph c) = mset c - {#n#} \<and> is_heap NodeCompare (pop ph c))"
    by (simp add: top_pq_def)
  have order: "\<forall>a b a' b'. g_cost a = g_cost a' \<and> g_cost b = g_cost b'
          \<longrightarrow> NodeCompare a b = NodeCompare a' b'"
    by (simp add: NodeCompare_def)
  have code: "fst (conditional_remove mh c v x) = 1
          \<longleftrightarrow> (\<exists>n. List.find (\<lambda>n. key n = key v) c = Some n \<and> f_cost n > x)" for mh v x
    by (simp add: conditional_remove_cases split: option.split)
  from top order conditional_remove_code_g_cost code show ?thesis
    by blast
qed

theorem frontier_pops_min_g_cost_witness:
  "is_heap NodeCompare
     [mk_node (mk_key 1 1 1) 1 9, mk_node (mk_key 2 2 2) 3 0, mk_node (mk_key 3 3 3) 2 5]
   \<and> top_pq [mk_node (mk_key 1 1 1) 1 9, mk_node (mk_key 2 2 2) 3 0, mk_node (mk_key 3 3 3) 2 5]
       = Some (mk_node (mk_key 1 1 1) 1 9)
   \<and> pop sort_pop_heap
        [mk_node (mk_key 1 1 1) 1 9, mk_node (mk_key 2 2 2) 3 0, mk_node (mk_key 3 3 3) 2 5]
       = [mk_node (mk_key 3 3 3) 2 5, mk_node (mk_key 2 2 2) 3 0]
   \<and> fst (conditional_remove sort_make_heap
        [mk_node (mk_key 1 1 1) 1 9, mk_node (mk_key 2 2 2) 3 0, mk_node (mk_key 3 3 3) 2 5]
        (mk_node (mk_key 1 1 1) 0 0) 4) = 1"
  using frontier_pops_min_g_cost
    [of "[mk_node (mk_key 1 1 1) 1 9, mk_node (mk_key 2 2 2) 3 0, mk_node (mk_key 3 3 3) 2 5]"]
    sort_pop_heap_post
  by (simp add: is_heap_def NodeCompare_def mk_node_def mk_key_def top_pq_def pop_def
      sort_pop_heap_def)

text \<open>
  The claim as stated says that conditional remove consults the cost that orders the
  queue. It fails on a queue holding one node with \<open>g_cost = 10\<close> and \<open>f_cost = 0\<close>: the
  candidate 5 is better than the ordering cost, yet the node is kept; and a node with
  \<open>g_cost = 1\<close> and \<open>f_cost = 10\<close> is removed by the candidate 5, which is worse than its
  ordering cost.
\<close>

theorem conditional_remove_queue_cost_counterexample:
  "top_pq [mk_node (mk_key 1 2 3) 10 0] = Some (mk_node (mk_key 1 2 3) 10 0)
   \<and> g_cost (mk_node (mk_key 1 2 3) 10 0) > 5
   \<and> conditional_remove sort_make_heap [mk_node (mk_key 1 2 3) 10 0] (mk_node (mk_key 1 2 3) 0 0) 5
       = (- 1, [mk_node (mk_key 1 2 3) 10 0])
   \<and> g_cost (mk_node (mk_key 1 2 3) 1 10) \<le> 5
   \<and> conditional_remove sort_make_heap [mk_node (mk_key 1 2 3) 1 10] (mk_node (mk_key 1 2 3) 0 0) 5
       = (1, [])"
  by (simp add: top_pq_def conditional_remove_def node_equal_def mk_node_def mk_key_def
      erase_def sort_make_heap_def)

section \<open>The timeout of the search\<close>




end
